theory Spec2Isabelle
  imports
    Complex_Main
    "HOL-Library.Product_Lexorder"
    "HOL-Library.List_Lexorder"
    "HOL-Library.Char_ord"
    "HOL-Library.Multiset"
begin

section \<open>Data model of \<^verbatim>\<open>dashboard.py\<close>\<close>

text \<open>
  The script keeps its transactions in pandas data frames. A frame is modelled as the
  list of its rows, a row as a record of the columns the script reads or creates.
  A calendar date is the triple (year, month, day), a pandas timestamp is a date with the
  nanoseconds since midnight; both are ordered lexicographically, which is the
  chronological order. Amounts are float64 in pandas and exact reals here: sums are
  exact, and the special values inf and NaN are not represented.
  A character is one code point of the range U+0000..U+00FF; text outside that range is
  not represented.
\<close>

type_synonym date = "int \<times> nat \<times> nat"
type_synonym timestamp = "date \<times> nat"

text \<open>One line of the CSV file, every cell still text (the description may be missing).\<close>

record raw_row =
  raw_date :: string
  raw_amount :: string
  raw_type :: string
  raw_description :: "string option"

text \<open>One row of the frame that \<^verbatim>\<open>load_data\<close> returns.\<close>

record txn =
  date :: timestamp
  amount :: real
  type :: string
  description :: "string option"
  clean_desc :: string
  Category :: string
  signed_amount :: real

definition dt_date :: "timestamp \<Rightarrow> date" where
  "dt_date ts = fst ts"

section \<open>Description clean-up (lines 25 and 26)\<close>

text \<open>
  \<^verbatim>\<open>str.lower()\<close> on the code points below 256: the capital letters A..Z, and the
  accented capitals U+00C0..U+00DE without the multiplication sign U+00D7, move up by 32.
\<close>

definition lower_char :: "char \<Rightarrow> char" where
  "lower_char c =
     (let n = (of_char c :: nat)
      in if (65 \<le> n \<and> n \<le> 90) \<or> (192 \<le> n \<and> n \<le> 214) \<or> (216 \<le> n \<and> n \<le> 222)
         then char_of (n + 32) else c)"

definition str_lower :: "string \<Rightarrow> string" where
  "str_lower s = map lower_char s"

text \<open>
  The class \<^verbatim>\<open>\w\<close> of Python's \<^verbatim>\<open>re\<close> on text: the underscore and every
  code point that is alphabetic, decimal, digit or numeric. Below 256 these are the ASCII
  letters and digits, the ordinal indicators, the superscript digits, the micro sign, the
  vulgar fractions and the accented letters.
\<close>

definition is_word :: "char \<Rightarrow> bool" where
  "is_word c =
     (let n = (of_char c :: nat)
      in (48 \<le> n \<and> n \<le> 57) \<or> (65 \<le> n \<and> n \<le> 90) \<or> n = 95 \<or> (97 \<le> n \<and> n \<le> 122)
         \<or> n = 170 \<or> n = 178 \<or> n = 179 \<or> n = 181 \<or> n = 185 \<or> n = 186
         \<or> (188 \<le> n \<and> n \<le> 190) \<or> (192 \<le> n \<and> n \<le> 214)
         \<or> (216 \<le> n \<and> n \<le> 246) \<or> (248 \<le> n \<and> n \<le> 255))"

text \<open>The character class \<^verbatim>\<open>[\W_]\<close>.\<close>

definition in_class :: "char \<Rightarrow> bool" where
  "in_class c = (c = CHR ''_'' \<or> \<not> is_word c)"

text \<open>
  \<^verbatim>\<open>str.replace(r'[\W_]+', ' ', regex=True)\<close>: scanning from the left, every maximal run
  of characters of the class is replaced by one space.
\<close>

function str_replace :: "string \<Rightarrow> string" where
  "str_replace [] = []"
| "str_replace (c # cs) =
     (if in_class c then CHR '' '' # str_replace (dropWhile in_class cs)
      else c # str_replace cs)"
  by pat_completeness auto
termination
  by (relation "measure length") (auto simp: less_Suc_eq_le length_dropWhile_le)

text \<open>
  \<^verbatim>\<open>str.strip()\<close> removes the white space at both ends. Below 256 Python's white
  space is TAB..CR, the separators U+001C..U+001F, the space, NEL and the no-break space.
\<close>

definition is_space :: "char \<Rightarrow> bool" where
  "is_space c =
     (let n = (of_char c :: nat)
      in (9 \<le> n \<and> n \<le> 13) \<or> (28 \<le> n \<and> n \<le> 32) \<or> n = 133 \<or> n = 160)"

definition str_strip :: "string \<Rightarrow> string" where
  "str_strip s = rev (dropWhile is_space (rev (dropWhile is_space s)))"

text \<open>\<^verbatim>\<open>astype(str)\<close>: a missing cell becomes the text \<^verbatim>\<open>nan\<close>.\<close>

definition astype_str :: "string option \<Rightarrow> string" where
  "astype_str d = (case d of None \<Rightarrow> ''nan'' | Some s \<Rightarrow> s)"

definition normalize_desc :: "string \<Rightarrow> string" where
  "normalize_desc s = str_strip (str_replace (str_lower s))"

section \<open>Categories (lines 28 to 42)\<close>

text \<open>The dictionary literal, in its declaration order.\<close>

definition categories :: "(string \<times> string list) list" where
  "categories =
    [(''Groceries'', [''tesco'', ''sainsbury'', ''aldi'', ''lidl'', ''asda'', ''morrisons'',
                     ''waitrose'', ''food'', ''supermarket'']),
     (''Transport'', [''uber'', ''tfl'', ''train'', ''tube'', ''bus'', ''petrol'', ''fuel'',
                     ''shell'', ''bp'']),
     (''Salary'', [''salary'', ''payroll'', ''income'', ''wage'', ''payment from'']),
     (''Utilities'', [''thames water'', ''british gas'', ''ee'', ''vodafone'', ''sky'',
                     ''virgin'', ''council tax'', ''rent'']),
     (''Entertainment'', [''netflix'', ''spotify'', ''cinema'', ''restaurant'', ''pub'',
                         ''bar'', ''cafe'']),
     (''Shopping'', [''amazon'', ''ebay'', ''boots'', ''primark'', ''online purchase'']),
     (''Health'', [''boots'', ''pharmacy'', ''doctor'', ''hospital'', ''superdrug'']),
     (''Travel'', [''ryanair'', ''easyjet'', ''booking.com'', ''hotel'', ''eurostar''])]"

text \<open>\<^verbatim>\<open>'|'.join(keywords)\<close>\<close>

fun str_join :: "string \<Rightarrow> string list \<Rightarrow> string" where
  "str_join sep [] = []"
| "str_join sep [x] = x"
| "str_join sep (x # y # ys) = x @ sep @ str_join sep (y # ys)"

text \<open>
  The joined text is read by \<^verbatim>\<open>str.contains\<close> as a regular expression. The fragment
  modelled is the one the table above needs: alternatives separated by \<^verbatim>\<open>|\<close>, each a
  sequence of characters, where the dot stands for any character but the line feed and
  any other character stands for itself, letter case ignored (\<^verbatim>\<open>case=False\<close>).
\<close>

fun alternatives :: "string \<Rightarrow> string list" where
  "alternatives [] = [[]]"
| "alternatives (c # cs) =
     (if c = CHR ''|'' then [] # alternatives cs
      else (case alternatives cs of [] \<Rightarrow> [[c]] | a # as \<Rightarrow> (c # a) # as))"

definition atom_match :: "char \<Rightarrow> char \<Rightarrow> bool" where
  "atom_match p c = (if p = CHR ''.'' then c \<noteq> CHR 0x0A else lower_char c = lower_char p)"

fun match_here :: "string \<Rightarrow> string \<Rightarrow> bool" where
  "match_here [] s = True"
| "match_here (p # ps) [] = False"
| "match_here (p # ps) (c # cs) = (atom_match p c \<and> match_here ps cs)"

fun match_anywhere :: "string \<Rightarrow> string \<Rightarrow> bool" where
  "match_anywhere alt [] = match_here alt []"
| "match_anywhere alt (c # cs) = (match_here alt (c # cs) \<or> match_anywhere alt cs)"

definition str_contains :: "string \<Rightarrow> string \<Rightarrow> bool" where
  "str_contains pat s = list_ex (\<lambda>alt. match_anywhere alt s) (alternatives pat)"

text \<open>
  The loop of lines 39 to 42 on one row: the column starts as \<^verbatim>\<open>Other\<close>, and every
  category of the table, in turn, overwrites it where its pattern is found.
\<close>

fun assign_categories :: "(string \<times> string list) list \<Rightarrow> string \<Rightarrow> string \<Rightarrow> string" where
  "assign_categories [] desc cur = cur"
| "assign_categories ((cat, keywords) # rest) desc cur =
     assign_categories rest desc
       (if str_contains (str_join ''|'' keywords) desc then cat else cur)"

definition categorize :: "(string \<times> string list) list \<Rightarrow> string \<Rightarrow> string" where
  "categorize tbl desc = assign_categories tbl desc ''Other''"

text \<open>
  The categorizer as the specification words it, for comparison: the categories are tried
  in declaration order, and the first one with a keyword that is a substring of the
  description (letter case ignored) is assigned.
\<close>

fun starts_with :: "string \<Rightarrow> string \<Rightarrow> bool" where
  "starts_with [] s = True"
| "starts_with (k # ks) [] = False"
| "starts_with (k # ks) (c # cs) = (k = c \<and> starts_with ks cs)"

fun is_substring :: "string \<Rightarrow> string \<Rightarrow> bool" where
  "is_substring k [] = starts_with k []"
| "is_substring k (c # cs) = (starts_with k (c # cs) \<or> is_substring k cs)"

fun first_match_spec :: "(string \<times> string list) list \<Rightarrow> string \<Rightarrow> string" where
  "first_match_spec [] desc = ''Other''"
| "first_match_spec ((cat, keywords) # rest) desc =
     (if list_ex (\<lambda>k. is_substring (str_lower k) (str_lower desc)) keywords then cat
      else first_match_spec rest desc)"

section \<open>Sorting a frame\<close>

text \<open>
  \<^verbatim>\<open>sort_values\<close> asks the sorting routine for the positions of the keys in
  ascending order and takes the rows at these positions. The script passes no
  \<^verbatim>\<open>kind\<close>, so the routine is pandas' default \<^verbatim>\<open>quicksort\<close>, which the
  pandas documentation sets apart from the stable kinds (\<^verbatim>\<open>mergesort\<close>,
  \<^verbatim>\<open>stable\<close>). The routine is therefore a parameter \<open>argsort\<close> of the model;
  what is known of it is \<open>argsort_ok\<close>: it returns a permutation of the positions that
  puts the keys in ascending order.
\<close>

definition take_rows :: "'a list \<Rightarrow> nat list \<Rightarrow> 'a list" where
  "take_rows xs idx = map (\<lambda>i. xs ! i) idx"

definition sort_values :: "('k list \<Rightarrow> nat list) \<Rightarrow> ('a \<Rightarrow> 'k) \<Rightarrow> 'a list \<Rightarrow> 'a list" where
  "sort_values argsort key xs = take_rows xs (argsort (map key xs))"

definition argsort_ok :: "('k::linorder list \<Rightarrow> nat list) \<Rightarrow> bool" where
  "argsort_ok argsort =
     (\<forall>ks. mset (argsort ks) = mset [0..<length ks] \<and> sorted (map (\<lambda>i. ks ! i) (argsort ks)))"

text \<open>
  Two routines that meet \<open>argsort_ok\<close>: one keeps equal keys in their input order, the
  other returns equal keys in the reverse of their input order.
\<close>

definition stable_argsort :: "'k::linorder list \<Rightarrow> nat list" where
  "stable_argsort ks = map snd (sort_key fst (zip ks [0..<length ks]))"

definition reversing_argsort :: "'k::linorder list \<Rightarrow> nat list" where
  "reversing_argsort ks = map snd (sort_key fst (rev (zip ks [0..<length ks])))"

section \<open>The loader (lines 19 to 47)\<close>

text \<open>
  \<^verbatim>\<open>pd.to_datetime\<close> and \<^verbatim>\<open>pd.to_numeric\<close> are parameters: with
  \<^verbatim>\<open>errors='coerce'\<close> a cell that does not parse becomes NaT or NaN, here \<open>None\<close>.
\<close>

definition coerce ::
  "(string \<Rightarrow> timestamp option) \<Rightarrow> (string \<Rightarrow> real option) \<Rightarrow> raw_row list
     \<Rightarrow> (timestamp option \<times> real option \<times> raw_row) list" where
  "coerce to_datetime to_numeric rws =
     map (\<lambda>r. (to_datetime (raw_date r), to_numeric (raw_amount r), r)) rws"

text \<open>\<^verbatim>\<open>dropna(subset=['date', 'amount'])\<close>\<close>

fun dropna :: "(timestamp option \<times> real option \<times> raw_row) list \<Rightarrow> (timestamp \<times> real \<times> raw_row) list" where
  "dropna [] = []"
| "dropna (cell # cells) =
     (case cell of
        (Some d, Some a, r) \<Rightarrow> (d, a, r) # dropna cells
      | _ \<Rightarrow> dropna cells)"

text \<open>The lambda of line 45.\<close>

definition signed_amount_of :: "real \<Rightarrow> string \<Rightarrow> real" where
  "signed_amount_of a ty = (if ty = ''debit'' then - a else a)"

definition derive_row :: "(string \<times> string list) list \<Rightarrow> timestamp \<times> real \<times> raw_row \<Rightarrow> txn" where
  "derive_row tbl cell =
     (case cell of (d, a, r) \<Rightarrow>
       (let cd = normalize_desc (astype_str (raw_description r))
        in \<lparr>date = d, amount = a, type = raw_type r, description = raw_description r,
            clean_desc = cd, Category = categorize tbl cd,
            signed_amount = signed_amount_of a (raw_type r)\<rparr>))"

definition load_data ::
  "(string \<Rightarrow> timestamp option) \<Rightarrow> (string \<Rightarrow> real option) \<Rightarrow> (timestamp list \<Rightarrow> nat list)
     \<Rightarrow> raw_row list \<Rightarrow> txn list" where
  "load_data to_datetime to_numeric argsort rws =
     sort_values argsort date (map (derive_row categories) (dropna (coerce to_datetime to_numeric rws)))"

section \<open>Filters and the running total (lines 64 to 76)\<close>

definition in_filter :: "string list \<Rightarrow> date \<Rightarrow> date \<Rightarrow> txn \<Rightarrow> bool" where
  "in_filter types d0 d1 t =
     (type t \<in> set types \<and> d0 \<le> dt_date (date t) \<and> dt_date (date t) \<le> d1)"

definition mask_rows :: "string list \<Rightarrow> date \<Rightarrow> date \<Rightarrow> txn list \<Rightarrow> txn list" where
  "mask_rows types d0 d1 rs = filter (in_filter types d0 d1) rs"

fun cumsum_from :: "real \<Rightarrow> real list \<Rightarrow> real list" where
  "cumsum_from acc [] = []"
| "cumsum_from acc (x # xs) = (acc + x) # cumsum_from (acc + x) xs"

definition cumsum :: "real list \<Rightarrow> real list" where
  "cumsum xs = cumsum_from 0 xs"

text \<open>\<^verbatim>\<open>.iloc[0]\<close> raises IndexError on an empty column: \<open>None\<close>.\<close>

definition iloc0 :: "real list \<Rightarrow> real option" where
  "iloc0 c = (case c of [] \<Rightarrow> None | c0 # _ \<Rightarrow> Some c0)"

text \<open>
  Lines 71 to 76 on the rows of the filtered frame: the sorted rows and their
  \<^verbatim>\<open>cumulative\<close> column.
\<close>

definition recompute :: "(timestamp list \<Rightarrow> nat list) \<Rightarrow> txn list \<Rightarrow> (txn list \<times> real list) option" where
  "recompute argsort fs =
     (let srt = sort_values argsort date fs;
          c = cumsum (map signed_amount srt)
      in if length srt > 0
         then (case iloc0 c of None \<Rightarrow> None | Some c0 \<Rightarrow> Some (srt, map (\<lambda>x. x - c0) c))
         else Some (srt, c))"

text \<open>The series the net worth chart plots: x the dates, y the cumulative column.\<close>

definition cumulative_net_worth ::
  "(timestamp list \<Rightarrow> nat list) \<Rightarrow> txn list \<Rightarrow> (timestamp \<times> real) list option" where
  "cumulative_net_worth argsort fs =
     (case recompute argsort fs of None \<Rightarrow> None | Some (srt, c) \<Rightarrow> Some (zip (map date srt) c))"

section \<open>Monthly cash flow (line 121)\<close>

text \<open>
  \<^verbatim>\<open>resample('MS')\<close> cuts the span from the month of the earliest row to the month of
  the latest row into calendar months, one bin per month, labelled by the first day of
  the month at midnight; \<^verbatim>\<open>sum()\<close> adds the signed amounts of each bin, and the sum of
  a bin without rows is 0. Months are numbered \<open>12 * year + month - 1\<close>.
\<close>

definition month_index :: "timestamp \<Rightarrow> int" where
  "month_index ts = (case ts of ((y, m, d), ns) \<Rightarrow> y * 12 + int m - 1)"

definition month_start :: "int \<Rightarrow> timestamp" where
  "month_start k = ((k div 12, nat (k mod 12) + 1, 1), 0)"

definition month_total :: "txn list \<Rightarrow> int \<Rightarrow> real" where
  "month_total fs k = sum_list (map signed_amount (filter (\<lambda>t. month_index (date t) = k) fs))"

definition monthly :: "txn list \<Rightarrow> (timestamp \<times> real) list" where
  "monthly fs =
     (if fs = [] then []
      else (let ks = map (\<lambda>t. month_index (date t)) fs
            in map (\<lambda>k. (month_start k, month_total fs k)) [Min (set ks)..Max (set ks)]))"

section \<open>Sums per category (lines 189 and 207)\<close>

text \<open>
  \<^verbatim>\<open>groupby('Category')['amount'].sum()\<close>: one entry per category that occurs, the
  categories in ascending order of their names (\<^verbatim>\<open>groupby\<close> sorts its keys).
  \<^verbatim>\<open>sort_values(ascending=True)\<close> then sorts the entries by their sums, again with
  the default sorting routine.
\<close>

definition groupby_sum :: "txn list \<Rightarrow> (string \<times> real) list" where
  "groupby_sum rs =
     map (\<lambda>c. (c, sum_list (map amount (filter (\<lambda>t. Category t = c) rs))))
         (sort (remdups (map Category rs)))"

definition group_by_category :: "(real list \<Rightarrow> nat list) \<Rightarrow> txn list \<Rightarrow> string \<Rightarrow> (string \<times> real) list" where
  "group_by_category argsort fs ty =
     sort_values argsort snd (groupby_sum (filter (\<lambda>t. type t = ty) fs))"

definition spending :: "(real list \<Rightarrow> nat list) \<Rightarrow> txn list \<Rightarrow> (string \<times> real) list" where
  "spending argsort fs = group_by_category argsort fs ''debit''"

definition income_cat :: "(real list \<Rightarrow> nat list) \<Rightarrow> txn list \<Rightarrow> (string \<times> real) list" where
  "income_cat argsort fs = group_by_category argsort fs ''credit''"

section \<open>Frames as objects (lines 49 and 64 to 76)\<close>

text \<open>
  The script holds its frames in variables. A pandas operation (indexing with a mask,
  \<^verbatim>\<open>copy\<close>, \<^verbatim>\<open>sort_values\<close>, \<^verbatim>\<open>reset_index\<close>) returns a new frame object; an
  assignment to a column changes the frame object in place. A session is the store of
  frame objects with the two variables \<^verbatim>\<open>df\<close> and \<^verbatim>\<open>filtered\<close>; references are
  handed out in increasing order. A frame object is its rows and, once assigned, its
  \<^verbatim>\<open>cumulative\<close> column. A missing object or column is the error \<open>None\<close>.
\<close>

record frame =
  rows :: "txn list"
  cumulative :: "real list option"

record session =
  heap :: "nat \<Rightarrow> frame option"
  next_ref :: nat
  df :: nat
  filtered :: "nat option"

definition new_frame :: "frame \<Rightarrow> session \<Rightarrow> nat \<times> session" where
  "new_frame f s =
     (next_ref s, s\<lparr>heap := (heap s)(next_ref s \<mapsto> f), next_ref := Suc (next_ref s)\<rparr>)"

definition frame_mask :: "(txn \<Rightarrow> bool) \<Rightarrow> frame \<Rightarrow> frame" where
  "frame_mask p f =
     \<lparr>rows = filter p (rows f),
      cumulative = map_option (\<lambda>c. map snd (filter (\<lambda>rc. p (fst rc)) (zip (rows f) c)))
                     (cumulative f)\<rparr>"

definition frame_take :: "nat list \<Rightarrow> frame \<Rightarrow> frame" where
  "frame_take idx f =
     \<lparr>rows = take_rows (rows f) idx,
      cumulative = map_option (\<lambda>c. take_rows c idx) (cumulative f)\<rparr>"

definition set_cumulative :: "nat \<Rightarrow> real list \<Rightarrow> session \<Rightarrow> session option" where
  "set_cumulative a vs s =
     (case heap s a of None \<Rightarrow> None
      | Some f \<Rightarrow> Some (s\<lparr>heap := (heap s)(a \<mapsto> f\<lparr>cumulative := Some vs\<rparr>)\<rparr>))"

definition get_cumulative :: "nat \<Rightarrow> session \<Rightarrow> real list option" where
  "get_cumulative a s = (case heap s a of None \<Rightarrow> None | Some f \<Rightarrow> cumulative f)"

text \<open>Lines 64 to 76 as they act on the session.\<close>

definition apply_filters ::
  "(timestamp list \<Rightarrow> nat list) \<Rightarrow> string list \<Rightarrow> date \<Rightarrow> date \<Rightarrow> session \<Rightarrow> session option" where
  "apply_filters argsort types d0 d1 s =
     (case heap s (df s) of None \<Rightarrow> None
      | Some canon \<Rightarrow>
         (let f1 = frame_mask (in_filter types d0 d1) canon;
              (a1, s1) = new_frame f1 s;
              (a2, s2) = new_frame f1 s1;
              f3 = frame_take (argsort (map date (rows f1))) f1;
              (a3, s3) = new_frame f3 s2;
              (a4, s4) = new_frame f3 s3;
              s5 = s4\<lparr>filtered := Some a4\<rparr>
          in case set_cumulative a4 (cumsum (map signed_amount (rows f3))) s5 of
               None \<Rightarrow> None
             | Some s6 \<Rightarrow>
                 if length (rows f3) > 0
                 then (case get_cumulative a4 s6 of None \<Rightarrow> None
                       | Some c \<Rightarrow>
                           (case iloc0 c of None \<Rightarrow> None
                            | Some c0 \<Rightarrow> set_cumulative a4 (map (\<lambda>x. x - c0) c) s6))
                 else Some s6))"

text \<open>The frame the variable \<^verbatim>\<open>filtered\<close> refers to.\<close>

definition filtered_frame :: "session \<Rightarrow> frame option" where
  "filtered_frame s = (case filtered s of None \<Rightarrow> None | Some a \<Rightarrow> heap s a)"

section \<open>Sample data for the worked examples\<close>

definition txn_salary :: txn where
  "txn_salary =
     \<lparr>date = ((2024, 1, 15), 0), amount = 100, type = ''credit'',
      description = Some ''Salary payment from ACME'', clean_desc = ''salary payment from acme'',
      Category = ''Salary'', signed_amount = 100\<rparr>"

definition txn_tesco :: txn where
  "txn_tesco =
     \<lparr>date = ((2024, 3, 10), 0), amount = 20, type = ''debit'',
      description = Some ''Tesco groceries'', clean_desc = ''tesco groceries'',
      Category = ''Groceries'', signed_amount = - 20\<rparr>"

definition txn_uber :: txn where
  "txn_uber =
     \<lparr>date = ((2024, 3, 10), 0), amount = 20, type = ''debit'',
      description = Some ''Uber trip'', clean_desc = ''uber trip'',
      Category = ''Transport'', signed_amount = - 20\<rparr>"

text \<open>A stand-in for the two pandas parsers on the cells of the sample file.\<close>

definition sample_to_datetime :: "string \<Rightarrow> timestamp option" where
  "sample_to_datetime s =
     map_of [(''2024-01-15'', ((2024, 1, 15), 0)), (''2024-03-10'', ((2024, 3, 10), 0))] s"

definition sample_to_numeric :: "string \<Rightarrow> real option" where
  "sample_to_numeric s = map_of [(''100'', 100), (''20'', 20)] s"

definition sample_rows :: "raw_row list" where
  "sample_rows =
     [\<lparr>raw_date = ''2024-03-10'', raw_amount = ''20'', raw_type = ''debit'',
       raw_description = Some ''Tesco groceries''\<rparr>,
      \<lparr>raw_date = ''soon'', raw_amount = ''20'', raw_type = ''debit'',
       raw_description = None\<rparr>,
      \<lparr>raw_date = ''2024-01-15'', raw_amount = ''100'', raw_type = ''credit'',
       raw_description = Some ''Salary payment from ACME''\<rparr>,
      \<lparr>raw_date = ''2024-03-10'', raw_amount = ''a lot'', raw_type = ''debit'',
       raw_description = Some ''Uber trip''\<rparr>]"

definition sample_session :: session where
  "sample_session =
     \<lparr>heap = Map.empty(0 \<mapsto> \<lparr>rows = [txn_salary, txn_tesco, txn_uber], cumulative = None\<rparr>),
      next_ref = 1, df = 0, filtered = None\<rparr>"

section \<open>Auxiliary notions for the proofs\<close>

text \<open>
  A text is tidy when every character of the class \<^verbatim>\<open>[\W_]\<close> in it is a space that is
  followed by a character outside the class: the shape of a text after the replacement.
\<close>

fun tidy :: "string \<Rightarrow> bool" where
  "tidy [] = True"
| "tidy [c] = (in_class c \<longrightarrow> c = CHR '' '')"
| "tidy (c # d # cs) = ((in_class c \<longrightarrow> c = CHR '' '' \<and> \<not> in_class d) \<and> tidy (d # cs))"

text \<open>The pattern of the table entry \<open>e\<close> is found in the description.\<close>

definition hit :: "string \<Rightarrow> string \<times> string list \<Rightarrow> bool" where
  "hit desc e = str_contains (str_join ''|'' (snd e)) desc"

text \<open>Both cells that the loader coerces parse: the row survives \<^verbatim>\<open>dropna\<close>.\<close>

definition parsed :: "(string \<Rightarrow> timestamp option) \<Rightarrow> (string \<Rightarrow> real option) \<Rightarrow> raw_row \<Rightarrow> bool" where
  "parsed td tn r = (td (raw_date r) \<noteq> None \<and> tn (raw_amount r) \<noteq> None)"

section \<open>Description clean-up is idempotent\<close>

lemma lower_char_idem: "lower_char (lower_char c) = lower_char c"
  unfolding lower_char_def Let_def by (auto simp: of_char_of)

lemma lower_char_space: "lower_char (CHR '' '') = CHR '' ''"
  by (simp add: lower_char_def)

lemma set_str_replace: "set (str_replace s) \<subseteq> insert (CHR '' '') (set s)"
proof (induction s rule: str_replace.induct)
  case 1
  then show ?case by simp
next
  case (2 c cs)
  have "set (dropWhile in_class cs) \<subseteq> set cs"
    by (auto dest: set_dropWhileD)
  with 2 show ?case by (auto split: if_splits)
qed

lemma tidy_fixed: "tidy s \<Longrightarrow> str_replace s = s"
  by (induction s rule: tidy.induct) auto

lemma tidy_Cons: "tidy (c # s) \<Longrightarrow> tidy s"
  by (cases s) auto

lemma tidy_append: "tidy (a @ b) \<Longrightarrow> tidy a \<and> tidy b"
proof (induction a rule: tidy.induct)
  case 1
  then show ?case by simp
next
  case (2 c)
  then show ?case by (cases b) auto
next
  case (3 c d cs)
  then show ?case by auto
qed

lemma hd_str_replace: "s \<noteq> [] \<Longrightarrow> \<not> in_class (hd s) \<Longrightarrow> \<not> in_class (hd (str_replace s))"
  by (cases s) auto

lemma str_replace_Nil: "str_replace s = [] \<longleftrightarrow> s = []"
  by (cases s) auto

lemma tidy_space_Cons: "tidy w \<Longrightarrow> w = [] \<or> \<not> in_class (hd w) \<Longrightarrow> tidy (CHR '' '' # w)"
  by (cases w) auto

lemma hd_str_replace_dropWhile:
  "str_replace (dropWhile in_class cs) = [] \<or> \<not> in_class (hd (str_replace (dropWhile in_class cs)))"
proof (cases "dropWhile in_class cs = []")
  case True
  then have "str_replace (dropWhile in_class cs) = []" by (simp only: str_replace.simps)
  then show ?thesis ..
next
  case False
  then have "\<not> in_class (hd (dropWhile in_class cs))" by (rule hd_dropWhile)
  with False show ?thesis by (intro disjI2 hd_str_replace)
qed

lemma tidy_str_replace: "tidy (str_replace s)"
proof (induction s rule: str_replace.induct)
  case 1
  then show ?case by simp
next
  case (2 c cs)
  show ?case
  proof (cases "in_class c")
    case True
    with 2 have "tidy (str_replace (dropWhile in_class cs))" by simp
    then have "tidy (CHR '' '' # str_replace (dropWhile in_class cs))"
      using hd_str_replace_dropWhile by (rule tidy_space_Cons)
    with True show ?thesis by simp
  next
    case False
    with 2 have t: "tidy (str_replace cs)" by simp
    with False show ?thesis by (cases "str_replace cs") auto
  qed
qed

lemma rev_dropWhile_decomp: "v = rev (dropWhile P (rev v)) @ rev (takeWhile P (rev v))"
proof -
  have "rev v = takeWhile P (rev v) @ dropWhile P (rev v)" by simp
  then have "v = rev (takeWhile P (rev v) @ dropWhile P (rev v))" by (metis rev_rev_ident)
  then show ?thesis by (simp only: rev_append)
qed

lemma strip_decomp: "\<exists>a b. s = a @ str_strip s @ b"
proof -
  let ?u = "dropWhile is_space s"
  have 1: "s = takeWhile is_space s @ ?u" by simp
  have 2: "?u = str_strip s @ rev (takeWhile is_space (rev ?u))"
    unfolding str_strip_def by (rule rev_dropWhile_decomp)
  from 1 2 show ?thesis by metis
qed

lemma dropWhile_fixed: "s = [] \<or> \<not> P (hd s) \<Longrightarrow> dropWhile P s = s"
  by (cases s) auto

lemma dropWhile_fixedD: "dropWhile P s = s \<Longrightarrow> s = [] \<or> \<not> P (hd s)"
  using hd_dropWhile[of P s] by auto

lemma strip_front: "dropWhile is_space (str_strip s) = str_strip s"
proof -
  let ?u = "dropWhile is_space s"
  let ?z = "str_strip s"
  let ?r = "rev (takeWhile is_space (rev ?u))"
  have u: "?u = [] \<or> \<not> is_space (hd ?u)"
    by (rule dropWhile_fixedD) simp
  have b: "?u = ?z @ ?r"
    unfolding str_strip_def by (rule rev_dropWhile_decomp)
  show ?thesis
  proof (cases "?z = []")
    case True
    then show ?thesis by simp
  next
    case False
    have "hd ?u = hd (?z @ ?r)" using b by (rule arg_cong)
    also have "\<dots> = hd ?z" using False by simp
    finally have h: "hd ?u = hd ?z" .
    have "?u \<noteq> []"
    proof
      assume e: "?u = []"
      have "?z @ ?r = []" using b[symmetric] e by (rule trans)
      then have "?z = []" by simp
      with False show False ..
    qed
    with u have "\<not> is_space (hd ?u)" by blast
    then have "\<not> is_space (hd ?z)" using h by simp
    then show ?thesis by (intro dropWhile_fixed disjI2)
  qed
qed

lemma strip_idem: "str_strip (str_strip s) = str_strip s"
proof -
  have "str_strip (str_strip s) = rev (dropWhile is_space (rev (str_strip s)))"
    by (simp add: str_strip_def[of "str_strip s"] strip_front)
  also have "\<dots> = str_strip s"
    by (simp add: str_strip_def)
  finally show ?thesis .
qed

lemma set_strip: "set (str_strip s) \<subseteq> set s"
proof -
  obtain a b where "s = a @ str_strip s @ b" using strip_decomp by blast
  then have "set s = set a \<union> set (str_strip s) \<union> set b" by (metis set_append Un_assoc)
  then show ?thesis by blast
qed

lemma tidy_strip: "tidy s \<Longrightarrow> tidy (str_strip s)"
proof -
  assume t: "tidy s"
  obtain a b where "s = a @ str_strip s @ b" using strip_decomp by blast
  with t have "tidy (a @ str_strip s @ b)" by simp
  then show ?thesis using tidy_append by blast
qed

lemma lower_fixed: "\<forall>c\<in>set s. lower_char c = c \<Longrightarrow> str_lower s = s"
  by (simp add: str_lower_def map_idI)

text \<open>
  Claim C7. Cleaning a description (lower case, every maximal run of characters that are
  not alphanumeric, underscore included, replaced by one space, white space trimmed at
  both ends) is idempotent: cleaning a cleaned text returns it unchanged.
\<close>

theorem normalize_idempotent: "normalize_desc (normalize_desc s) = normalize_desc s"
proof -
  let ?x = "str_lower s"
  let ?y = "str_replace ?x"
  let ?z = "str_strip ?y"
  have "\<forall>c\<in>set ?x. lower_char c = c"
    by (auto simp: str_lower_def lower_char_idem)
  moreover have "set ?z \<subseteq> insert (CHR '' '') (set ?x)"
    using set_strip[of ?y] set_str_replace[of ?x] by blast
  ultimately have "\<forall>c\<in>set ?z. lower_char c = c"
    using lower_char_space by auto
  then have 1: "str_lower ?z = ?z" by (rule lower_fixed)
  have "tidy ?z" by (intro tidy_strip tidy_str_replace)
  then have 2: "str_replace ?z = ?z" by (rule tidy_fixed)
  have 3: "str_strip ?z = ?z" by (rule strip_idem)
  show ?thesis
    by (simp only: normalize_desc_def 1 2 3)
qed

theorem normalize_idempotent_witness:
  "normalize_desc (normalize_desc ''  Tesco_STORES -- #42!! '') = ''tesco stores 42''"
proof -
  have h: "normalize_desc ''  Tesco_STORES -- #42!! '' = ''tesco stores 42''" by code_simp
  show ?thesis
    using normalize_idempotent[of "''  Tesco_STORES -- #42!! ''"] h by (rule trans)
qed

section \<open>The categorizer keeps the last match\<close>

lemma assign_categories_step:
  "assign_categories (e # rest) desc cur =
     assign_categories rest desc (if hit desc e then fst e else cur)"
  by (cases e) (simp add: hit_def)

lemma assign_categories_last:
  "assign_categories tbl desc cur =
     (case filter (hit desc) tbl of [] \<Rightarrow> cur | m # ms \<Rightarrow> fst (last (m # ms)))"
proof (induction tbl arbitrary: cur)
  case Nil
  then show ?case by simp
next
  case (Cons e tbl)
  show ?case
    by (cases "filter (hit desc) tbl") (simp_all add: assign_categories_step Cons)
qed

text \<open>
  Claim C1, amended. The loop tries every category of the table in declaration order and
  never stops early: each category whose pattern (the keywords joined by \<^verbatim>\<open>|\<close>, read
  as a regular expression) is found in the description overwrites the label. The
  description therefore gets the category declared last among those that match, and
  \<^verbatim>\<open>Other\<close> when none matches.
\<close>

theorem categorize_last_match:
  "categorize tbl desc =
     (case filter (hit desc) tbl of [] \<Rightarrow> ''Other'' | m # ms \<Rightarrow> fst (last (m # ms)))"
  unfolding categorize_def by (rule assign_categories_last)

theorem categorize_last_match_witness:
  "categorize categories ''uber to tesco'' = ''Transport''"
proof -
  have h: "(case filter (hit ''uber to tesco'') categories of [] \<Rightarrow> ''Other''
            | m # ms \<Rightarrow> fst (last (m # ms))) = ''Transport''"
    by code_simp
  show ?thesis
    using categorize_last_match[of categories "''uber to tesco''"] h by (rule trans)
qed

theorem categorize_first_match_counterexample:
  "categorize categories ''boots'' = ''Health''
   \<and> first_match_spec categories ''boots'' = ''Shopping''
   \<and> categorize categories ''booking com'' = ''Travel''
   \<and> first_match_spec categories ''booking com'' = ''Other''"
proof -
  have 1: "categorize categories ''boots'' = ''Health''" by code_simp
  have 2: "first_match_spec categories ''boots'' = ''Shopping''" by code_simp
  have 3: "categorize categories ''booking com'' = ''Travel''" by code_simp
  have 4: "first_match_spec categories ''booking com'' = ''Other''" by code_simp
  from 1 2 3 4 show ?thesis by (intro conjI)
qed

section \<open>What is known of a sorted frame\<close>

lemma argsort_ok_mset: "argsort_ok f \<Longrightarrow> mset (f ks) = mset [0..<length ks]"
  by (simp add: argsort_ok_def)

lemma argsort_ok_sorted: "argsort_ok f \<Longrightarrow> sorted (map (\<lambda>i. ks ! i) (f ks))"
  by (simp add: argsort_ok_def)

lemma argsort_ok_set: "argsort_ok f \<Longrightarrow> set (f ks) = {0..<length ks}"
proof -
  assume "argsort_ok f"
  then have "mset (f ks) = mset [0..<length ks]" by (rule argsort_ok_mset)
  then have "set (f ks) = set [0..<length ks]" by (rule mset_eq_setD)
  then show ?thesis by simp
qed

lemma mset_sort_values:
  assumes "argsort_ok f"
  shows "mset (sort_values f key xs) = mset xs"
proof -
  have "mset (sort_values f key xs) = image_mset ((!) xs) (mset (f (map key xs)))"
    by (simp add: sort_values_def take_rows_def)
  also have "\<dots> = image_mset ((!) xs) (mset [0..<length xs])"
    using argsort_ok_mset[OF assms, of "map key xs"] by simp
  also have "\<dots> = mset (map ((!) xs) [0..<length xs])" by simp
  also have "\<dots> = mset xs" by (simp only: map_nth)
  finally show ?thesis .
qed

lemma set_sort_values: "argsort_ok f \<Longrightarrow> set (sort_values f key xs) = set xs"
  using mset_sort_values[of f key xs] by (metis set_mset_mset)

lemma length_sort_values: "argsort_ok f \<Longrightarrow> length (sort_values f key xs) = length xs"
  using mset_sort_values[of f key xs] by (metis size_mset)

lemma sorted_sort_values:
  assumes "argsort_ok f"
  shows "sorted (map key (sort_values f key xs))"
proof -
  let ?idx = "f (map key xs)"
  have "\<forall>i\<in>set ?idx. i < length xs"
    using argsort_ok_set[OF assms, of "map key xs"] by simp
  then have "map key (sort_values f key xs) = map (\<lambda>i. map key xs ! i) ?idx"
    by (simp add: sort_values_def take_rows_def)
  then show ?thesis
    using argsort_ok_sorted[OF assms, of "map key xs"] by simp
qed

section \<open>Two sorting routines that meet the contract\<close>

lemma argsort_of_perm_mset:
  assumes "mset zs = mset (zip ks [0..<length ks])"
  shows "mset (map snd (sort_key fst zs)) = mset [0..<length ks]"
proof -
  have "mset (map snd (sort_key fst zs)) = image_mset snd (mset zs)" by simp
  also have "\<dots> = image_mset snd (mset (zip ks [0..<length ks]))" by (simp only: assms)
  also have "\<dots> = mset (map snd (zip ks [0..<length ks]))" by (simp only: mset_map)
  also have "map snd (zip ks [0..<length ks]) = [0..<length ks]" by simp
  finally show ?thesis .
qed

lemma argsort_of_perm_sorted:
  assumes "mset zs = mset (zip ks [0..<length ks])"
  shows "sorted (map (\<lambda>i. ks ! i) (map snd (sort_key fst zs)))"
proof -
  have "set zs = set (zip ks [0..<length ks])" using assms by (rule mset_eq_setD)
  then have "\<forall>p\<in>set zs. ks ! snd p = fst p" by (auto simp: set_zip)
  then have "map (\<lambda>i. ks ! i) (map snd (sort_key fst zs)) = map fst (sort_key fst zs)"
    by simp
  then show ?thesis by (simp only: sorted_sort_key)
qed

lemma stable_argsort_ok: "argsort_ok stable_argsort"
  unfolding argsort_ok_def stable_argsort_def
  by (intro allI conjI argsort_of_perm_mset argsort_of_perm_sorted) simp_all

lemma reversing_argsort_ok: "argsort_ok reversing_argsort"
  unfolding argsort_ok_def reversing_argsort_def
  by (intro allI conjI argsort_of_perm_mset argsort_of_perm_sorted) simp_all

section \<open>The loader keeps the rows that parse\<close>

lemma dropna_coerce:
  "dropna (coerce td tn rws) =
     map (\<lambda>r. (the (td (raw_date r)), the (tn (raw_amount r)), r)) (filter (parsed td tn) rws)"
proof (induction rws)
  case Nil
  then show ?case by (simp add: coerce_def)
next
  case (Cons r rws)
  then have ih: "dropna (map (\<lambda>r. (td (raw_date r), tn (raw_amount r), r)) rws) =
     map (\<lambda>r. (the (td (raw_date r)), the (tn (raw_amount r)), r)) (filter (parsed td tn) rws)"
    by (simp add: coerce_def)
  have p: "parsed td tn r = (td (raw_date r) \<noteq> None \<and> tn (raw_amount r) \<noteq> None)"
    by (simp only: parsed_def)
  show ?case
    by (cases "td (raw_date r)"; cases "tn (raw_amount r)") (simp_all add: coerce_def ih p)
qed

lemma dropna_coerce_filter:
  "dropna (coerce td tn (filter (parsed td tn) rws)) = dropna (coerce td tn rws)"
  by (simp add: dropna_coerce)

lemma set_load_data:
  assumes "argsort_ok argsort"
  shows "set (load_data td tn argsort rws) =
           (\<lambda>r. derive_row categories (the (td (raw_date r)), the (tn (raw_amount r)), r))
             ` {r \<in> set rws. parsed td tn r}"
  by (auto simp: load_data_def set_sort_values[OF assms] dropna_coerce)

lemma load_data_sample:
  "load_data sample_to_datetime sample_to_numeric stable_argsort sample_rows
     = [txn_salary, txn_tesco]"
  by code_simp

text \<open>
  Claim C6. A raw row whose date or whose amount does not parse never appears in the table
  that the loader returns: every row of the table comes from a raw row whose date and
  amount both parsed (and carries these parsed values), the table has as many rows as
  there are raw rows that parse, and the table is the one obtained from the parsable raw
  rows alone. The sorting routine is any routine that meets \<open>argsort_ok\<close>.
\<close>

theorem load_data_drops_unparsable:
  assumes "argsort_ok argsort"
  shows "(\<forall>t\<in>set (load_data td tn argsort rws).
            \<exists>r\<in>set rws. td (raw_date r) = Some (date t) \<and> tn (raw_amount r) = Some (amount t)
                         \<and> type t = raw_type r \<and> description t = raw_description r)
         \<and> length (load_data td tn argsort rws) = length (filter (parsed td tn) rws)
         \<and> load_data td tn argsort rws = load_data td tn argsort (filter (parsed td tn) rws)"
proof (intro conjI ballI)
  fix t assume "t \<in> set (load_data td tn argsort rws)"
  then obtain r where r: "r \<in> set rws" "parsed td tn r"
    and t: "t = derive_row categories (the (td (raw_date r)), the (tn (raw_amount r)), r)"
    unfolding set_load_data[OF assms] by blast
  from r(2) t have "td (raw_date r) = Some (date t) \<and> tn (raw_amount r) = Some (amount t)
                         \<and> type t = raw_type r \<and> description t = raw_description r"
    by (auto simp: parsed_def derive_row_def Let_def)
  with r(1) show "\<exists>r\<in>set rws. td (raw_date r) = Some (date t) \<and> tn (raw_amount r) = Some (amount t)
                         \<and> type t = raw_type r \<and> description t = raw_description r" ..
next
  show "length (load_data td tn argsort rws) = length (filter (parsed td tn) rws)"
    by (simp add: load_data_def length_sort_values[OF assms] dropna_coerce)
next
  show "load_data td tn argsort rws = load_data td tn argsort (filter (parsed td tn) rws)"
    by (simp only: load_data_def dropna_coerce_filter)
qed

theorem load_data_drops_unparsable_witness:
  "length (load_data sample_to_datetime sample_to_numeric stable_argsort sample_rows) = 2
   \<and> length sample_rows = 4"
proof -
  note t = load_data_drops_unparsable[OF stable_argsort_ok,
             of sample_to_datetime sample_to_numeric sample_rows]
  have "length (load_data sample_to_datetime sample_to_numeric stable_argsort sample_rows)
          = length (filter (parsed sample_to_datetime sample_to_numeric) sample_rows)"
    by (rule t[THEN conjunct2, THEN conjunct1])
  also have "\<dots> = 2" by code_simp
  finally have 1: "length (load_data sample_to_datetime sample_to_numeric stable_argsort sample_rows) = 2" .
  have 2: "length sample_rows = 4" by (simp add: sample_rows_def)
  from 1 2 show ?thesis ..
qed

text \<open>
  Claim C8. In the table that the loader returns, the signed amount of a row is the
  amount, negated when the type is \<^verbatim>\<open>debit\<close> and unchanged for every other type: an
  amount of 50 gives +50 as a credit and -50 as a debit.
\<close>

theorem signed_amount_sign:
  assumes "argsort_ok argsort" and "t \<in> set (load_data td tn argsort rws)"
  shows "signed_amount t = (if type t = ''debit'' then - amount t else amount t)"
proof -
  from assms(2) obtain r where
    "t = derive_row categories (the (td (raw_date r)), the (tn (raw_amount r)), r)"
    unfolding set_load_data[OF assms(1)] by blast
  then show ?thesis
    by (simp add: derive_row_def Let_def signed_amount_of_def)
qed

theorem signed_amount_sign_witness:
  "signed_amount txn_tesco = - 20 \<and> signed_amount txn_salary = 100"
proof -
  have m1: "txn_tesco \<in> set (load_data sample_to_datetime sample_to_numeric stable_argsort sample_rows)"
    by (simp add: load_data_sample)
  have m2: "txn_salary \<in> set (load_data sample_to_datetime sample_to_numeric stable_argsort sample_rows)"
    by (simp add: load_data_sample)
  have 1: "signed_amount txn_tesco = - 20"
    using signed_amount_sign[OF stable_argsort_ok m1] by (simp add: txn_tesco_def)
  have 2: "signed_amount txn_salary = 100"
    using signed_amount_sign[OF stable_argsort_ok m2] by (simp add: txn_salary_def)
  from 1 2 show ?thesis ..
qed

section \<open>The filter\<close>

text \<open>
  Claim C9. The filter keeps the rows whose type is one of the selected types and whose
  calendar date lies between the two bounds, both included; when the first bound is later
  than the second, no row is kept, and nothing fails.
\<close>

theorem filter_range:
  "mask_rows types d0 d1 rs =
     (if d1 < d0 then []
      else filter (\<lambda>t. type t \<in> set types \<and> dt_date (date t) \<in> {d0..d1}) rs)"
  by (auto simp: mask_rows_def in_filter_def filter_empty_conv intro: filter_cong)

theorem filter_range_witness:
  "mask_rows [''debit'', ''credit''] (2024, 4, 1) (2024, 1, 1) [txn_salary, txn_tesco, txn_uber] = []
   \<and> mask_rows [''debit''] (2024, 3, 10) (2024, 3, 10) [txn_salary, txn_tesco, txn_uber]
       = [txn_tesco, txn_uber]"
proof -
  have 1: "mask_rows [''debit'', ''credit''] (2024, 4, 1) (2024, 1, 1)
             [txn_salary, txn_tesco, txn_uber] = []"
    using filter_range[of "[''debit'', ''credit'']" "(2024, 4, 1)" "(2024, 1, 1)"
                          "[txn_salary, txn_tesco, txn_uber]"]
    by simp
  have 2: "mask_rows [''debit''] (2024, 3, 10) (2024, 3, 10) [txn_salary, txn_tesco, txn_uber]
             = [txn_tesco, txn_uber]"
    using filter_range[of "[''debit'']" "(2024, 3, 10)" "(2024, 3, 10)"
                          "[txn_salary, txn_tesco, txn_uber]"]
    by (simp add: txn_salary_def txn_tesco_def txn_uber_def dt_date_def)
  from 1 2 show ?thesis ..
qed

(*PROOFS*)

end
